theory Spec2Isabelle
  imports Complex_Main "HOL-Library.Multiset" "HOL-Library.Monad_Syntax"
begin

section \<open>The watched table\<close>

text \<open>
  Every dashboard variant keeps the interaction records in the SQLite table
  \<^verbatim>\<open>watched (username TEXT, movie_title TEXT)\<close>. The table is modelled as the list of
  its rows in insertion order; both columns are strings.
\<close>

type_synonym watched_table = "(string \<times> string) list"

text \<open>\<^verbatim>\<open>SELECT 1 FROM watched WHERE username=? AND movie_title=?\<close>\<close>

definition select_watched_row :: "watched_table \<Rightarrow> string \<Rightarrow> string \<Rightarrow> (string \<times> string) list" where
  "select_watched_row tbl username movie_title =
     filter (\<lambda>r. fst r = username \<and> snd r = movie_title) tbl"

text \<open>\<^verbatim>\<open>INSERT INTO watched (username, movie_title) VALUES (?, ?)\<close>\<close>

definition insert_watched :: "watched_table \<Rightarrow> string \<Rightarrow> string \<Rightarrow> watched_table" where
  "insert_watched tbl username movie_title = tbl @ [(username, movie_title)]"

text \<open>
  \<^verbatim>\<open>mark_watched\<close> of the card-grid variant (the one commented
  ``Avoid duplicate rows''): the row is inserted only when the SELECT finds none.
\<close>

definition mark_watched :: "watched_table \<Rightarrow> string \<Rightarrow> string \<Rightarrow> watched_table" where
  "mark_watched tbl username movie_title =
     (case select_watched_row tbl username movie_title of
        [] \<Rightarrow> insert_watched tbl username movie_title
      | _ # _ \<Rightarrow> tbl)"

text \<open>
  \<^verbatim>\<open>mark_watched\<close> of the other variants: a plain INSERT, on a table that
  declares no uniqueness constraint.
\<close>

definition mark_watched_insert :: "watched_table \<Rightarrow> string \<Rightarrow> string \<Rightarrow> watched_table" where
  "mark_watched_insert tbl username movie_title = insert_watched tbl username movie_title"

text \<open>\<^verbatim>\<open>DELETE FROM watched WHERE username=? AND movie_title=?\<close>\<close>

definition delete_watched :: "watched_table \<Rightarrow> string \<Rightarrow> string \<Rightarrow> watched_table" where
  "delete_watched tbl username movie_title =
     filter (\<lambda>r. \<not> (fst r = username \<and> snd r = movie_title)) tbl"

text \<open>
  \<^verbatim>\<open>unwatch_movie\<close>: the DELETE statement followed by a commit. The later variant
  wraps the same statement in \<^verbatim>\<open>try/except\<close> and reports a failure on the page; a
  DELETE that matches no row is not a failure, so both variants are the same function
  of the table.
\<close>

definition unwatch_movie :: "watched_table \<Rightarrow> string \<Rightarrow> string \<Rightarrow> watched_table" where
  "unwatch_movie tbl username movie_title = delete_watched tbl username movie_title"

text \<open>\<^verbatim>\<open>SELECT movie_title FROM watched WHERE username=?\<close>, as a list of titles.\<close>

definition get_watched :: "watched_table \<Rightarrow> string \<Rightarrow> string list" where
  "get_watched tbl username = map snd (filter (\<lambda>r. fst r = username) tbl)"

section \<open>Frames, cells and the library sort\<close>

text \<open>
  A genres cell of a metadata table holds a string, or something that is not a string
  (NaN for an empty CSV field): \<open>None\<close>. Scores and ratings are modelled as real
  numbers, so the rounding of floating-point arithmetic and NaN scores are outside the model.
\<close>

type_synonym cell = "string option"

datatype error = KeyError | TypeError

text \<open>
  \<^verbatim>\<open>DataFrame.sort_values(by=..., ascending=False)\<close> is called with the default
  \<^verbatim>\<open>kind='quicksort'\<close>. The sorting routine belongs to the library, not to the
  repository, so it is a parameter \<open>argsort\<close>: from the list of keys it returns the row
  positions in their new order. What the library documents for every kind is that the
  result is a rearrangement of the rows with the keys in descending order; the order among
  equal keys is documented for the stable kinds only.
\<close>

definition argsort_desc_ok :: "(real list \<Rightarrow> nat list) \<Rightarrow> bool" where
  "argsort_desc_ok argsort \<longleftrightarrow>
     (\<forall>ks. mset (argsort ks) = mset [0..<length ks] \<and>
           sorted_wrt (\<lambda>i j. ks ! j \<le> ks ! i) (argsort ks))"

definition sort_values_desc :: "(real list \<Rightarrow> nat list) \<Rightarrow> ('a \<Rightarrow> real) \<Rightarrow> 'a list \<Rightarrow> 'a list" where
  "sort_values_desc argsort by_col rows = map (\<lambda>i. rows ! i) (argsort (map by_col rows))"

text \<open>One admissible routine: the stable one, which keeps equal keys in their given order.\<close>

definition stable_argsort :: "real list \<Rightarrow> nat list" where
  "stable_argsort ks = sort_key (\<lambda>i. - (ks ! i)) [0..<length ks]"

text \<open>
  A character of the model is a code point below 256. \<^verbatim>\<open>s.split(sep)\<close> for a
  one-character separator, and \<^verbatim>\<open>s.strip()\<close>, which removes from both ends the
  characters for which \<^verbatim>\<open>str.isspace()\<close> holds: of the code points below 256 these are
  U+0009 to U+000D, U+001C to U+001F, the space, U+0085 (next line) and U+00A0 (no-break space).
\<close>

fun split_on :: "char \<Rightarrow> string \<Rightarrow> string list" where
  "split_on sep [] = [[]]"
| "split_on sep (c # cs) =
     (if c = sep then [] # split_on sep cs
      else (case split_on sep cs of
              w # ws \<Rightarrow> (c # w) # ws
            | [] \<Rightarrow> [[c]]))"

definition is_space :: "char \<Rightarrow> bool" where
  "is_space c \<longleftrightarrow> c \<in> set [CHR 0x09, CHR 0x0A, CHR 0x0B, CHR 0x0C, CHR 0x0D,
                            CHR 0x1C, CHR 0x1D, CHR 0x1E, CHR 0x1F, CHR '' '', CHR 0x85, CHR 0xA0]"

definition strip :: "string \<Rightarrow> string" where
  "strip s = rev (dropWhile is_space (rev (dropWhile is_space s)))"

section \<open>Genre boosting\<close>

text \<open>
  The boosting dashboard: \<^verbatim>\<open>recs_df\<close> has the columns \<^verbatim>\<open>movie_id\<close>,
  \<^verbatim>\<open>title\<close> (the field \<open>rec_title\<close>) and \<^verbatim>\<open>score\<close>; the metadata table has \<^verbatim>\<open>movie_id\<close> and
  possibly \<^verbatim>\<open>genres_clean\<close> and \<^verbatim>\<open>genres\<close> (an absent column is \<open>None\<close>).
\<close>

record rec_row =
  movie_id :: int
  rec_title :: string
  score :: real

record merged_row = rec_row +
  genres_list :: "string list option"

record overlap_row = merged_row +
  overlap :: real

record boosted_row = overlap_row +
  score_boosted :: real

record meta_df =
  meta_movie_id :: "int list"
  meta_genres_clean :: "cell list option"
  meta_genres :: "cell list option"

text \<open>
  A frame as \<^verbatim>\<open>boost_recommendations\<close> sees it: the columns of a frame are fixed by
  its constructor, and a column added in place moves the frame to the next constructor.
\<close>

datatype frame =
    RecsDF "rec_row list"
  | MetaDF meta_df
  | MetaListDF meta_df "string list list"
  | MergedDF "merged_row list"
  | OverlapDF "overlap_row list"
  | BoostedDF "boosted_row list"

text \<open>\<^verbatim>\<open>lambda g: [gg.strip() for gg in g.split("|")] if isinstance(g, str) else []\<close>\<close>

definition genres_to_list :: "cell \<Rightarrow> string list" where
  "genres_to_list g = (case g of Some s \<Rightarrow> map strip (split_on CHR ''|'' s) | None \<Rightarrow> [])"

text \<open>The column \<^verbatim>\<open>meta['genres_list']\<close>, by the \<^verbatim>\<open>if/elif/else\<close> on the columns present.\<close>

definition genres_list_column :: "meta_df \<Rightarrow> string list list" where
  "genres_list_column meta =
     (case meta_genres_clean meta of
        Some col \<Rightarrow> map genres_to_list col
      | None \<Rightarrow>
          (case meta_genres meta of
             Some col \<Rightarrow> map genres_to_list col
           | None \<Rightarrow> replicate (length (meta_movie_id meta)) []))"

text \<open>
  \<^verbatim>\<open>recs_df.merge(meta[['movie_id', 'genres_list']], on='movie_id', how='left')\<close>: every
  row of \<^verbatim>\<open>recs_df\<close>, in order, once per metadata row with its \<^verbatim>\<open>movie_id\<close>; a row
  with no match is kept once, with a missing \<^verbatim>\<open>genres_list\<close>.
\<close>

definition merge_row :: "(int \<times> string list) list \<Rightarrow> rec_row \<Rightarrow> merged_row list" where
  "merge_row right r =
     (case filter (\<lambda>m. fst m = movie_id r) right of
        [] \<Rightarrow> [\<lparr>movie_id = movie_id r, rec_title = rec_title r, score = score r, genres_list = None\<rparr>]
      | m # ms \<Rightarrow>
          map (\<lambda>m. \<lparr>movie_id = movie_id r, rec_title = rec_title r, score = score r,
                     genres_list = Some (snd m)\<rparr>) (m # ms))"

definition merge_left :: "rec_row list \<Rightarrow> (int \<times> string list) list \<Rightarrow> merged_row list" where
  "merge_left recs right = concat (map (merge_row right) recs)"

text \<open>The nested function \<^verbatim>\<open>overlap_boost\<close>.\<close>

definition overlap_boost :: "string list \<Rightarrow> string list option \<Rightarrow> real" where
  "overlap_boost user_pref_genres gl =
     (case gl of
        None \<Rightarrow> 0
      | Some g \<Rightarrow>
          if g = [] then 0
          else (let n = card (set g \<inter> set user_pref_genres)
                in if n = 0 then 0
                   else real n / real (max (length user_pref_genres) 1)))"

definition add_overlap :: "string list \<Rightarrow> merged_row list \<Rightarrow> overlap_row list" where
  "add_overlap user_pref_genres rows =
     map (\<lambda>r. \<lparr>movie_id = movie_id r, rec_title = rec_title r, score = score r,
                genres_list = genres_list r,
                overlap = overlap_boost user_pref_genres (genres_list r)\<rparr>) rows"

text \<open>
  \<^verbatim>\<open>Series.min()\<close> and \<^verbatim>\<open>Series.max()\<close>; on an empty column both are NaN, and
  \<^verbatim>\<open>max(1e-6, nan)\<close> is its first argument.
\<close>

fun series_min :: "real list \<Rightarrow> real option" where
  "series_min [] = None"
| "series_min (x # xs) = Some (fold min xs x)"

fun series_max :: "real list \<Rightarrow> real option" where
  "series_max [] = None"
| "series_max (x # xs) = Some (fold max xs x)"

definition score_range :: "real list \<Rightarrow> real" where
  "score_range scores =
     (case (series_min scores, series_max scores) of
        (Some min_s, Some max_s) \<Rightarrow> max (1 / 1000000) (max_s - min_s)
      | _ \<Rightarrow> 1 / 1000000)"

definition add_score_boosted :: "real \<Rightarrow> overlap_row list \<Rightarrow> boosted_row list" where
  "add_score_boosted boost_factor rows =
     (let range = score_range (map score rows)
      in map (\<lambda>r. \<lparr>movie_id = movie_id r, rec_title = rec_title r, score = score r,
                    genres_list = genres_list r, overlap = overlap r,
                    score_boosted = score r + boost_factor * range * overlap r\<rparr>) rows)"

definition boost_recommendations ::
  "(real list \<Rightarrow> nat list) \<Rightarrow> rec_row list \<Rightarrow> string list \<Rightarrow> meta_df \<Rightarrow> real \<Rightarrow> frame" where
  "boost_recommendations argsort recs_df user_pref_genres movie_metadata_df boost_factor =
     (if user_pref_genres = [] then RecsDF recs_df
      else
        (let right = zip (meta_movie_id movie_metadata_df) (genres_list_column movie_metadata_df);
             merged = merge_left recs_df right;
             with_overlap = add_overlap user_pref_genres merged;
             boosted = add_score_boosted boost_factor with_overlap
         in BoostedDF (sort_values_desc argsort score_boosted boosted)))"

text \<open>\<^verbatim>\<open>DataFrame.head(n)\<close> for \<open>n \<ge> 0\<close>.\<close>

fun head :: "nat \<Rightarrow> frame \<Rightarrow> frame" where
  "head n (RecsDF rows) = RecsDF (take n rows)"
| "head n (MergedDF rows) = MergedDF (take n rows)"
| "head n (OverlapDF rows) = OverlapDF (take n rows)"
| "head n (BoostedDF rows) = BoostedDF (take n rows)"
| "head n df = df"

fun frame_len :: "frame \<Rightarrow> nat" where
  "frame_len (RecsDF rows) = length rows"
| "frame_len (MetaDF meta) = length (meta_movie_id meta)"
| "frame_len (MetaListDF meta gl) = length (meta_movie_id meta)"
| "frame_len (MergedDF rows) = length rows"
| "frame_len (OverlapDF rows) = length rows"
| "frame_len (BoostedDF rows) = length rows"


text \<open>
  The caller, the handler of the button ``Get personalized recommendations'', from the
  point where \<^verbatim>\<open>recs_df\<close> is built: nothing is shown for an empty \<^verbatim>\<open>recs_df\<close>; otherwise the first
  \<^verbatim>\<open>top_n\<close> rows of the boosted frame are rendered, each from its \<^verbatim>\<open>title\<close>,
  \<^verbatim>\<open>score_boosted\<close> and \<^verbatim>\<open>genres_list\<close>. Reading \<^verbatim>\<open>row['score_boosted']\<close>
  from a frame without that column raises KeyError, and
  \<^verbatim>\<open>', '.join(row.get("genres_list") or [])\<close> raises TypeError on a missing
  (NaN) \<^verbatim>\<open>genres_list\<close>. The caller passes \<^verbatim>\<open>boost_factor=0.25\<close>.
\<close>

definition render_boosted_row :: "boosted_row \<Rightarrow> error + (string \<times> real \<times> string list)" where
  "render_boosted_row row =
     (case genres_list row of
        None \<Rightarrow> Inl TypeError
      | Some genres \<Rightarrow> Inr (rec_title row, score_boosted row, genres))"

fun sequence_rows :: "(error + 'a) list \<Rightarrow> error + 'a list" where
  "sequence_rows [] = Inr []"
| "sequence_rows (Inl e # rest) = Inl e"
| "sequence_rows (Inr x # rest) = (case sequence_rows rest of Inl e \<Rightarrow> Inl e | Inr xs \<Rightarrow> Inr (x # xs))"

fun render_rows :: "frame \<Rightarrow> error + (string \<times> real \<times> string list) list" where
  "render_rows (BoostedDF rows) = sequence_rows (map render_boosted_row rows)"
| "render_rows df = (if frame_len df = 0 then Inr [] else Inl KeyError)"

definition personalized_recommendations ::
  "(real list \<Rightarrow> nat list) \<Rightarrow> rec_row list \<Rightarrow> string list \<Rightarrow> meta_df \<Rightarrow> nat
     \<Rightarrow> error + (string \<times> real \<times> string list) list" where
  "personalized_recommendations argsort recs_df user_pref movies_df top_n =
     (if recs_df = [] then Inr []
      else (let boosted = boost_recommendations argsort recs_df user_pref movies_df (1 / 4);
                top_boosted = head top_n boosted
            in render_rows top_boosted))"

subsection \<open>The same function on a store of frames\<close>

text \<open>
  To speak about what \<^verbatim>\<open>boost_recommendations\<close> does to its arguments, frames live
  in a store and the function receives addresses. \<^verbatim>\<open>.copy()\<close>, \<^verbatim>\<open>.merge(...)\<close>,
  \<^verbatim>\<open>.sort_values(...)\<close> and \<^verbatim>\<open>.reset_index(drop=True)\<close> allocate a new frame;
  \<^verbatim>\<open>df[col] = ...\<close> changes the frame at its address. \<open>None\<close> stands for an exception
  (a frame without the columns the step reads). The row index is not modelled, so the
  frame that \<^verbatim>\<open>reset_index\<close> returns is a new frame with the same rows.
\<close>

type_synonym store = "frame list"

definition deref :: "store \<Rightarrow> nat \<Rightarrow> frame option" where
  "deref s a = (if a < length s then Some (s ! a) else None)"

definition alloc :: "store \<Rightarrow> frame \<Rightarrow> nat \<times> store" where
  "alloc s df = (length s, s @ [df])"

definition df_copy :: "store \<Rightarrow> nat \<Rightarrow> (nat \<times> store) option" where
  "df_copy s a = (case deref s a of Some df \<Rightarrow> Some (alloc s df) | None \<Rightarrow> None)"

definition set_genres_list :: "store \<Rightarrow> nat \<Rightarrow> store option" where
  "set_genres_list s a =
     (case deref s a of
        Some (MetaDF meta) \<Rightarrow> Some (s[a := MetaListDF meta (genres_list_column meta)])
      | _ \<Rightarrow> None)"

definition df_merge :: "store \<Rightarrow> nat \<Rightarrow> nat \<Rightarrow> (nat \<times> store) option" where
  "df_merge s left right =
     (case (deref s left, deref s right) of
        (Some (RecsDF recs), Some (MetaListDF meta gl)) \<Rightarrow>
          Some (alloc s (MergedDF (merge_left recs (zip (meta_movie_id meta) gl))))
      | _ \<Rightarrow> None)"

definition set_overlap :: "string list \<Rightarrow> store \<Rightarrow> nat \<Rightarrow> store option" where
  "set_overlap user_pref_genres s a =
     (case deref s a of
        Some (MergedDF rows) \<Rightarrow> Some (s[a := OverlapDF (add_overlap user_pref_genres rows)])
      | _ \<Rightarrow> None)"

definition set_score_boosted :: "real \<Rightarrow> store \<Rightarrow> nat \<Rightarrow> store option" where
  "set_score_boosted boost_factor s a =
     (case deref s a of
        Some (OverlapDF rows) \<Rightarrow> Some (s[a := BoostedDF (add_score_boosted boost_factor rows)])
      | _ \<Rightarrow> None)"

definition df_sort_values :: "(real list \<Rightarrow> nat list) \<Rightarrow> store \<Rightarrow> nat \<Rightarrow> (nat \<times> store) option" where
  "df_sort_values argsort s a =
     (case deref s a of
        Some (BoostedDF rows) \<Rightarrow> Some (alloc s (BoostedDF (sort_values_desc argsort score_boosted rows)))
      | _ \<Rightarrow> None)"

definition boost_recommendations_st ::
  "(real list \<Rightarrow> nat list) \<Rightarrow> store \<Rightarrow> nat \<Rightarrow> string list \<Rightarrow> nat \<Rightarrow> real \<Rightarrow> (nat \<times> store) option" where
  "boost_recommendations_st argsort s recs_df user_pref_genres movie_metadata_df boost_factor =
     (if user_pref_genres = [] then Some (recs_df, s)
      else do {
        (meta, s1) \<leftarrow> df_copy s movie_metadata_df;
        s2 \<leftarrow> set_genres_list s1 meta;
        (merged, s3) \<leftarrow> df_merge s2 recs_df meta;
        s4 \<leftarrow> set_overlap user_pref_genres s3 merged;
        s5 \<leftarrow> set_score_boosted boost_factor s4 merged;
        (sorted, s6) \<leftarrow> df_sort_values argsort s5 merged;
        df_copy s6 sorted
      })"

section \<open>The catalog and the genre profile\<close>

text \<open>
  The tabbed dashboards read \<^verbatim>\<open>movie_metadata.csv\<close> into \<^verbatim>\<open>movies_df\<close>, with the
  columns \<^verbatim>\<open>title\<close>, \<^verbatim>\<open>genres_clean\<close> and \<^verbatim>\<open>avg_rating\<close>.
\<close>

record movie =
  title :: string
  genres_clean :: cell
  avg_rating :: real

text \<open>\<^verbatim>\<open>movies_df[movies_df['title'].isin(titles)]\<close> and its complement with \<^verbatim>\<open>~\<close>.\<close>

definition title_isin :: "movie list \<Rightarrow> string list \<Rightarrow> movie list" where
  "title_isin movies_df titles = filter (\<lambda>m. title m \<in> set titles) movies_df"

definition title_not_isin :: "movie list \<Rightarrow> string list \<Rightarrow> movie list" where
  "title_not_isin movies_df titles = filter (\<lambda>m. title m \<notin> set titles) movies_df"

text \<open>
  \<^verbatim>\<open>Series.str.split(sep).explode()\<close>: a string cell gives one entry per piece, a
  cell that is not a string gives one missing entry. \<^verbatim>\<open>dropna()\<close> removes the
  missing entries.
\<close>

definition str_split_explode :: "char \<Rightarrow> cell list \<Rightarrow> cell list" where
  "str_split_explode sep col =
     concat (map (\<lambda>c. case c of Some s \<Rightarrow> map Some (split_on sep s) | None \<Rightarrow> [None]) col)"

definition dropna :: "cell list \<Rightarrow> string list" where
  "dropna col = concat (map (\<lambda>c. case c of Some s \<Rightarrow> [s] | None \<Rightarrow> []) col)"

text \<open>
  \<^verbatim>\<open>collections.Counter(xs)\<close> as the list of its items, in the order in which the keys
  were first inserted, and \<^verbatim>\<open>most_common(k)\<close>: the first \<open>k\<close> items of the stable
  sort by descending count.
\<close>

fun counter_add :: "'a \<Rightarrow> ('a \<times> nat) list \<Rightarrow> ('a \<times> nat) list" where
  "counter_add x [] = [(x, 1)]"
| "counter_add x ((y, n) # items) =
     (if x = y then (y, n + 1) # items else (y, n) # counter_add x items)"

definition Counter :: "'a list \<Rightarrow> ('a \<times> nat) list" where
  "Counter xs = foldl (\<lambda>items x. counter_add x items) [] xs"

definition most_common :: "nat \<Rightarrow> ('a \<times> nat) list \<Rightarrow> ('a \<times> nat) list" where
  "most_common k items = take k (sort_key (\<lambda>item. - int (snd item)) items)"

text \<open>\<^verbatim>\<open>get_top_genres\<close> of the card-grid variant.\<close>

definition watched_genres :: "movie list \<Rightarrow> string list \<Rightarrow> string list" where
  "watched_genres movies_df watched =
     dropna (str_split_explode CHR ''|'' (map genres_clean (title_isin movies_df watched)))"

definition get_top_genres :: "watched_table \<Rightarrow> movie list \<Rightarrow> string \<Rightarrow> nat \<Rightarrow> string list" where
  "get_top_genres tbl movies_df username k =
     (let watched = get_watched tbl username
      in if watched = [] then []
         else map fst (most_common k (Counter (watched_genres movies_df watched))))"

section \<open>The recommendation tabs\<close>

text \<open>\<^verbatim>\<open>s.startswith(p)\<close> and the substring test \<^verbatim>\<open>a in s\<close> on strings.\<close>

fun starts_with :: "string \<Rightarrow> string \<Rightarrow> bool" where
  "starts_with s [] = True"
| "starts_with [] (p # ps) = False"
| "starts_with (c # cs) (p # ps) = (c = p \<and> starts_with cs ps)"

fun str_contains :: "string \<Rightarrow> string \<Rightarrow> bool" where
  "str_contains [] a = (a = [])"
| "str_contains (c # cs) a = (starts_with (c # cs) a \<or> str_contains cs a)"

text \<open>
  \<^verbatim>\<open>any(genre in g for genre in top_genres)\<close>: the generator stops at the first match;
  \<^verbatim>\<open>genre in g\<close> raises TypeError when \<^verbatim>\<open>g\<close> is NaN (a float is not iterable) and
  when \<^verbatim>\<open>g\<close> is a string but \<^verbatim>\<open>genre\<close> is NaN.
\<close>

fun any_genre_in :: "cell list \<Rightarrow> cell \<Rightarrow> error + bool" where
  "any_genre_in [] g = Inr False"
| "any_genre_in (genre # rest) g =
     (case g of
        None \<Rightarrow> Inl TypeError
      | Some s \<Rightarrow>
          (case genre of
             None \<Rightarrow> Inl TypeError
           | Some a \<Rightarrow> if str_contains s a then Inr True else any_genre_in rest g))"

text \<open>
  \<^verbatim>\<open>df[col].apply(f)\<close>: \<^verbatim>\<open>f\<close> is applied to the rows in order and an exception
  ends the call; the result has one entry per row.
\<close>

fun series_apply :: "('a \<Rightarrow> error + bool) \<Rightarrow> 'a list \<Rightarrow> error + bool list" where
  "series_apply f [] = Inr []"
| "series_apply f (r # rows) =
     (case f r of
        Inl e \<Rightarrow> Inl e
      | Inr b \<Rightarrow>
          (case series_apply f rows of
             Inl e \<Rightarrow> Inl e
           | Inr bs \<Rightarrow> Inr (b # bs)))"

text \<open>
  \<^verbatim>\<open>df[df[col].apply(f)]\<close>: a result of \<^verbatim>\<open>apply\<close> with at least one entry is a
  boolean mask, and the rows at its True entries are kept. On a frame without rows
  \<^verbatim>\<open>f\<close> is never called and \<^verbatim>\<open>apply\<close> returns an empty column of dtype object,
  which the library does not take for a mask but for a list of column labels: the
  selection is then a frame without columns, \<open>None\<close>.
\<close>

definition select_rows :: "('a \<Rightarrow> error + bool) \<Rightarrow> 'a list \<Rightarrow> error + 'a list option" where
  "select_rows f rows =
     (case series_apply f rows of
        Inl e \<Rightarrow> Inl e
      | Inr keep \<Rightarrow>
          if keep = [] then Inr None
          else Inr (Some (map fst (filter snd (zip rows keep)))))"

text \<open>\<^verbatim>\<open>df.sort_values(by="avg_rating", ascending=False).head(top_n)["title"].tolist()\<close>\<close>

definition top_rated_titles :: "(real list \<Rightarrow> nat list) \<Rightarrow> movie list \<Rightarrow> nat \<Rightarrow> string list" where
  "top_rated_titles argsort df top_n = map title (take top_n (sort_values_desc argsort avg_rating df))"

definition TOP_N :: nat where
  "TOP_N = 10"

subsection \<open>The variant without a watched filter\<close>

text \<open>
  \<^verbatim>\<open>get_genre_recommendations\<close> of the variant whose tab shows the model's list as it
  is. \<^verbatim>\<open>sort_values(by="avg_rating")\<close> on a frame without columns raises KeyError.
\<close>

definition get_genre_recommendations ::
  "(real list \<Rightarrow> nat list) \<Rightarrow> watched_table \<Rightarrow> movie list \<Rightarrow> string \<Rightarrow> nat \<Rightarrow> error + string list" where
  "get_genre_recommendations argsort tbl movies_df username top_n =
     (let watched = get_watched tbl username
      in if watched = [] then Inr (top_rated_titles argsort movies_df top_n)
         else
           (let genres = str_split_explode CHR ''|'' (map genres_clean (title_isin movies_df watched));
                top_genres = map fst (most_common 4 (Counter genres));
                recs = title_not_isin movies_df watched
            in case select_rows (\<lambda>m. any_genre_in top_genres (genres_clean m)) recs of
                 Inl e \<Rightarrow> Inl e
               | Inr None \<Rightarrow> Inl KeyError
               | Inr (Some recs) \<Rightarrow> Inr (top_rated_titles argsort recs top_n)))"

text \<open>
  The Recommendations tab of that variant. \<open>user_id\<close> is the outcome of
  \<^verbatim>\<open>int(username)\<close>, \<open>None\<close> after a ValueError; \<^verbatim>\<open>final_recs\<close> maps the user
  ids of the model to lists of titles. \<open>recommendations_tab_recs\<close> is the list \<^verbatim>\<open>recs\<close>,
  \<open>recommendations_tab\<close> the rows \<^verbatim>\<open>movies_df[movies_df['title'].isin(recs)]\<close> that are
  shown.
\<close>

definition recommendations_tab_recs ::
  "(real list \<Rightarrow> nat list) \<Rightarrow> (int \<rightharpoonup> string list) \<Rightarrow> watched_table \<Rightarrow> movie list
     \<Rightarrow> string \<Rightarrow> int option \<Rightarrow> error + string list" where
  "recommendations_tab_recs argsort final_recs tbl movies_df username user_id =
     (case (case user_id of None \<Rightarrow> None | Some u \<Rightarrow> final_recs u) of
        Some recs \<Rightarrow> Inr recs
      | None \<Rightarrow> get_genre_recommendations argsort tbl movies_df username TOP_N)"

definition recommendations_tab ::
  "(real list \<Rightarrow> nat list) \<Rightarrow> (int \<rightharpoonup> string list) \<Rightarrow> watched_table \<Rightarrow> movie list
     \<Rightarrow> string \<Rightarrow> int option \<Rightarrow> error + movie list" where
  "recommendations_tab argsort final_recs tbl movies_df username user_id =
     (case recommendations_tab_recs argsort final_recs tbl movies_df username user_id of
        Inl e \<Rightarrow> Inl e
      | Inr recs \<Rightarrow> Inr (title_isin movies_df recs))"


subsection \<open>The variant that removes watched titles\<close>

text \<open>
  \<^verbatim>\<open>get_genre_recommendations\<close> of the variant with per-movie reasons: it tests
  \<^verbatim>\<open>genre in str(g)\<close>, where \<^verbatim>\<open>str\<close> of a NaN cell is \<^verbatim>\<open>'nan'\<close>, and returns
  the titles together with the most frequent genre (\<open>None\<close> for Python's \<^verbatim>\<open>None\<close>).
\<close>

definition str_of_cell :: "cell \<Rightarrow> cell" where
  "str_of_cell g = (case g of Some s \<Rightarrow> Some s | None \<Rightarrow> Some ''nan'')"

definition get_genre_recommendations_reason ::
  "(real list \<Rightarrow> nat list) \<Rightarrow> watched_table \<Rightarrow> movie list \<Rightarrow> string \<Rightarrow> nat
     \<Rightarrow> error + (string list \<times> cell option)" where
  "get_genre_recommendations_reason argsort tbl movies_df username top_n =
     (let watched = get_watched tbl username
      in if watched = [] then Inr (top_rated_titles argsort movies_df top_n, None)
         else
           (let genres = str_split_explode CHR ''|'' (map genres_clean (title_isin movies_df watched));
                top_genre = (case most_common 1 (Counter genres) of
                               [] \<Rightarrow> None
                             | item # _ \<Rightarrow> Some (fst item));
                top_genres = map fst (most_common 4 (Counter genres));
                recs = title_not_isin movies_df watched
            in case select_rows (\<lambda>m. any_genre_in top_genres (str_of_cell (genres_clean m))) recs of
                 Inl e \<Rightarrow> Inl e
               | Inr None \<Rightarrow> Inl KeyError
               | Inr (Some recs) \<Rightarrow> Inr (top_rated_titles argsort recs top_n, top_genre)))"

text \<open>
  Its Recommendations tab: the model's list or the fallback's titles, without the titles
  the user has watched, then the catalog rows with these titles. (The reason text built
  for each card does not change which rows are shown.)
\<close>

definition recommendations_tab_reason ::
  "(real list \<Rightarrow> nat list) \<Rightarrow> (int \<rightharpoonup> string list) \<Rightarrow> watched_table \<Rightarrow> movie list
     \<Rightarrow> string \<Rightarrow> int option \<Rightarrow> error + movie list" where
  "recommendations_tab_reason argsort final_recs tbl movies_df username user_id =
     (case (case (case user_id of None \<Rightarrow> None | Some u \<Rightarrow> final_recs u) of
              Some recs \<Rightarrow> Inr recs
            | None \<Rightarrow> map_sum id fst (get_genre_recommendations_reason argsort tbl movies_df username TOP_N)) of
        Inl e \<Rightarrow> Inl e
      | Inr recs \<Rightarrow>
          (let watched_movies = set (get_watched tbl username);
               recs = filter (\<lambda>t. t \<notin> watched_movies) recs
           in Inr (title_isin movies_df recs)))"

subsection \<open>The list-based model\<close>





text \<open>
  The position at which a value is first met when a list is scanned from its start
  (the length of the list for a value that does not occur); used to state the order of ties.
\<close>

definition first_seen :: "'a list \<Rightarrow> 'a \<Rightarrow> nat" where
  "first_seen xs x = length (takeWhile (\<lambda>y. y \<noteq> x) xs)"

section \<open>Properties of the watched table\<close>

lemma select_watched_row_empty_iff:
  "select_watched_row tbl u t = [] \<longleftrightarrow> (u, t) \<notin> set tbl"
  by (auto simp: select_watched_row_def filter_empty_conv)

lemma mark_watched_present: "(u, t) \<in> set tbl \<Longrightarrow> mark_watched tbl u t = tbl"
  using select_watched_row_empty_iff [of tbl u t]
  by (simp add: mark_watched_def split: list.splits)

lemma mark_watched_absent: "(u, t) \<notin> set tbl \<Longrightarrow> mark_watched tbl u t = tbl @ [(u, t)]"
  using select_watched_row_empty_iff [of tbl u t]
  by (simp add: mark_watched_def insert_watched_def split: list.splits)

lemma mark_watched_idempotent:
  "mark_watched (mark_watched tbl u t) u t = mark_watched tbl u t"
  by (cases "(u, t) \<in> set tbl") (simp_all add: mark_watched_present mark_watched_absent)

lemma mark_watched_distinct: "distinct tbl \<Longrightarrow> distinct (mark_watched tbl u t)"
  by (cases "(u, t) \<in> set tbl") (simp_all add: mark_watched_present mark_watched_absent)

text \<open>
  C7. The plain-INSERT \<^verbatim>\<open>mark_watched\<close> called twice for the same user and title
  leaves two equal rows in the table: the second call changes the table, and the table is
  no longer duplicate-free. (The duplicate-checked variant is idempotent and keeps a
  duplicate-free table duplicate-free: \<open>mark_watched_idempotent\<close>,
  \<open>mark_watched_distinct\<close>.)
\<close>

theorem mark_watched_insert_duplicates:
  "mark_watched_insert (mark_watched_insert [] ''ann'' ''Heat'') ''ann'' ''Heat''
     = [(''ann'', ''Heat''), (''ann'', ''Heat'')] \<and>
   mark_watched_insert [(''ann'', ''Heat'')] ''ann'' ''Heat'' \<noteq> [(''ann'', ''Heat'')] \<and>
   \<not> distinct (mark_watched_insert (mark_watched_insert [] ''ann'' ''Heat'') ''ann'' ''Heat'')"
  by (simp add: mark_watched_insert_def insert_watched_def)

text \<open>
  C9. \<^verbatim>\<open>unwatch_movie\<close> on a (user, title) pair that has no row returns the table
  as it was; applying it twice is the same as applying it once; afterwards the pair has
  no row and every other row is still there. The function has no failing branch.
\<close>

theorem unwatch_movie_idempotent:
  "((username, movie_title) \<notin> set tbl \<longrightarrow> unwatch_movie tbl username movie_title = tbl) \<and>
   unwatch_movie (unwatch_movie tbl username movie_title) username movie_title
     = unwatch_movie tbl username movie_title \<and>
   set (unwatch_movie tbl username movie_title) = set tbl - {(username, movie_title)}"
proof (intro conjI impI)
  assume "(username, movie_title) \<notin> set tbl"
  then have "\<forall>r\<in>set tbl. \<not> (fst r = username \<and> snd r = movie_title)"
    by auto
  then show "unwatch_movie tbl username movie_title = tbl"
    unfolding unwatch_movie_def delete_watched_def by (simp only: filter_True)
next
  show "unwatch_movie (unwatch_movie tbl username movie_title) username movie_title
          = unwatch_movie tbl username movie_title"
    by (simp add: unwatch_movie_def delete_watched_def)
next
  show "set (unwatch_movie tbl username movie_title) = set tbl - {(username, movie_title)}"
    by (auto simp: unwatch_movie_def delete_watched_def)
qed

theorem unwatch_movie_idempotent_witness:
  "(''ann'', ''Heat'') \<notin> set [(''ann'', ''Alien''), (''bob'', ''Heat'')] \<and>
   unwatch_movie [(''ann'', ''Alien''), (''bob'', ''Heat'')] ''ann'' ''Heat''
     = [(''ann'', ''Alien''), (''bob'', ''Heat'')]"
  using unwatch_movie_idempotent [of "''ann''" "''Heat''" "[(''ann'', ''Alien''), (''bob'', ''Heat'')]"]
  by simp

section \<open>Sorting and boosting: properties\<close>

lemma argsort_ok_set: "argsort_desc_ok argsort \<Longrightarrow> set (argsort ks) = {0..<length ks}"
  unfolding argsort_desc_ok_def by (metis mset_eq_setD set_upt)

lemma sort_values_desc_mset:
  assumes "argsort_desc_ok argsort"
  shows "mset (sort_values_desc argsort by_col rows) = mset rows"
proof -
  have "mset (argsort (map by_col rows)) = mset [0..<length rows]"
    using assms unfolding argsort_desc_ok_def by (metis length_map)
  then have "mset (map (\<lambda>i. rows ! i) (argsort (map by_col rows)))
               = mset (map (\<lambda>i. rows ! i) [0..<length rows])"
    by (metis mset_map)
  then show ?thesis
    by (simp add: sort_values_desc_def map_nth)
qed

lemma sort_values_desc_set: "argsort_desc_ok argsort \<Longrightarrow> set (sort_values_desc argsort by_col rows) = set rows"
  by (metis sort_values_desc_mset set_mset_mset)

lemma sort_values_desc_length: "argsort_desc_ok argsort \<Longrightarrow> length (sort_values_desc argsort by_col rows) = length rows"
  by (metis sort_values_desc_mset size_mset)

lemma sort_values_desc_sorted:
  assumes "argsort_desc_ok argsort"
  shows "sorted_wrt (\<lambda>a b. by_col b \<le> by_col a) (sort_values_desc argsort by_col rows)"
proof -
  let ?ks = "map by_col rows"
  have s: "sorted_wrt (\<lambda>i j. ?ks ! j \<le> ?ks ! i) (argsort ?ks)"
    using assms unfolding argsort_desc_ok_def by blast
  have "sorted_wrt (\<lambda>i j. by_col (rows ! j) \<le> by_col (rows ! i)) (argsort ?ks)"
  proof (rule sorted_wrt_mono_rel [OF _ s])
    fix i j assume "i \<in> set (argsort ?ks)" "j \<in> set (argsort ?ks)" "?ks ! j \<le> ?ks ! i"
    then show "by_col (rows ! j) \<le> by_col (rows ! i)"
      using argsort_ok_set [OF assms, of ?ks] by simp
  qed
  then show ?thesis
    by (simp add: sort_values_desc_def sorted_wrt_map)
qed

lemma stable_argsort_ok: "argsort_desc_ok stable_argsort"
proof -
  have "sorted_wrt (\<lambda>i j. ks ! j \<le> ks ! i) (stable_argsort ks)" for ks
  proof -
    have "sorted (map (\<lambda>i. - (ks ! i)) (stable_argsort ks))"
      unfolding stable_argsort_def by (rule sorted_sort_key)
    then show ?thesis by (simp add: sorted_wrt_map)
  qed
  then show ?thesis
    by (simp add: argsort_desc_ok_def stable_argsort_def)
qed

lemma boost_recommendations_nonempty:
  "user_pref_genres \<noteq> [] \<Longrightarrow>
   boost_recommendations argsort recs_df user_pref_genres meta boost_factor =
     BoostedDF (sort_values_desc argsort score_boosted
       (add_score_boosted boost_factor (add_overlap user_pref_genres
          (merge_left recs_df (zip (meta_movie_id meta) (genres_list_column meta))))))"
  by (simp add: boost_recommendations_def)

lemma merge_row_cases:
  assumes "m \<in> set (merge_row right r)"
  shows "movie_id m = movie_id r \<and> rec_title m = rec_title r \<and> score m = score r \<and>
         (case genres_list m of
            None \<Rightarrow> movie_id r \<notin> fst ` set right
          | Some g \<Rightarrow> (movie_id r, g) \<in> set right)"
proof (cases "filter (\<lambda>m. fst m = movie_id r) right")
  case Nil
  then have "movie_id r \<notin> fst ` set right"
    by (auto simp: filter_empty_conv)
  with assms Nil show ?thesis
    by (simp add: merge_row_def)
next
  case (Cons a as)
  with assms have "m \<in> set (map (\<lambda>p. \<lparr>movie_id = movie_id r, rec_title = rec_title r, score = score r,
                     genres_list = Some (snd p)\<rparr>) (filter (\<lambda>m. fst m = movie_id r) right))"
    by (simp add: merge_row_def)
  then obtain p where p: "p \<in> set (filter (\<lambda>m. fst m = movie_id r) right)"
      and m: "m = \<lparr>movie_id = movie_id r, rec_title = rec_title r, score = score r, genres_list = Some (snd p)\<rparr>"
    by auto
  from p have "fst p = movie_id r \<and> p \<in> set right"
    by simp
  then have "(movie_id r, snd p) \<in> set right"
    by (metis prod.collapse)
  with m show ?thesis by simp
qed

lemma merge_row_nonempty: "merge_row right r \<noteq> []"
  by (simp add: merge_row_def split: list.splits)



lemma merge_row_unique:
  assumes "distinct (map fst right)"
  shows "length (merge_row right r) = 1"
proof -
  have "length (filter (\<lambda>m. fst m = movie_id r) right) \<le> 1"
    using assms
  proof (induction right)
    case Nil
    then show ?case by simp
  next
    case (Cons a right)
    then have "fst a = movie_id r \<Longrightarrow> filter (\<lambda>m. fst m = movie_id r) right = []"
      by (force simp: filter_empty_conv)
    with Cons show ?case by auto
  qed
  then show ?thesis
    by (cases "filter (\<lambda>m. fst m = movie_id r) right") (simp_all add: merge_row_def)
qed



lemma merge_left_length_ge: "length recs \<le> length (merge_left recs right)"
proof (induction recs)
  case Nil
  then show ?case by (simp add: merge_left_def)
next
  case (Cons r recs)
  have "1 \<le> length (merge_row right r)"
    using merge_row_nonempty [of right r] by (cases "merge_row right r") simp_all
  with Cons show ?case by (simp add: merge_left_def)
qed

lemma merge_left_length_unique:
  "distinct (map fst right) \<Longrightarrow> length (merge_left recs right) = length recs"
  by (induction recs) (simp_all add: merge_left_def merge_row_unique)



lemma add_overlap_scores: "map score (add_overlap user_pref_genres rows) = map score rows"
  by (simp add: add_overlap_def)

lemma boosted_rows_map:
  "add_score_boosted boost_factor (add_overlap user_pref_genres merged) =
     map (\<lambda>m. \<lparr>movie_id = movie_id m, rec_title = rec_title m, score = score m, genres_list = genres_list m,
                 overlap = overlap_boost user_pref_genres (genres_list m),
                 score_boosted = score m + boost_factor * score_range (map score merged)
                                   * overlap_boost user_pref_genres (genres_list m)\<rparr>) merged"
proof -
  have "add_score_boosted boost_factor (add_overlap user_pref_genres merged) =
          map (\<lambda>r. \<lparr>movie_id = movie_id r, rec_title = rec_title r, score = score r,
                    genres_list = genres_list r, overlap = overlap r,
                    score_boosted = score r + boost_factor * score_range (map score merged) * overlap r\<rparr>)
              (add_overlap user_pref_genres merged)"
    by (simp add: add_score_boosted_def add_overlap_scores Let_def)
  then show ?thesis
    by (simp add: add_overlap_def)
qed



lemma boosted_length:
  "length (add_score_boosted boost_factor (add_overlap user_pref_genres merged)) = length merged"
  by (simp add: add_score_boosted_def add_overlap_def Let_def)


lemma merge_left_base_unique:
  assumes "distinct (map fst right)"
  shows "map (\<lambda>r. (movie_id r, rec_title r, score r)) (merge_left recs right)
           = map (\<lambda>r. (movie_id r, rec_title r, score r)) recs"
proof (induction recs)
  case Nil
  then show ?case by (simp add: merge_left_def)
next
  case (Cons r recs)
  from merge_row_unique [OF assms, of r] obtain m where m: "merge_row right r = [m]"
    by (cases "merge_row right r") auto
  then have "m \<in> set (merge_row right r)" by simp
  from merge_row_cases [OF this] have "(movie_id m, rec_title m, score m) = (movie_id r, rec_title r, score r)"
    by simp
  with Cons m show ?case by (simp add: merge_left_def)
qed

lemma distinct_zip_fst: "distinct xs \<Longrightarrow> distinct (map fst (zip xs ys))"
  by (simp add: map_fst_zip_take)

text \<open>
  For a non-empty preference list the result holds the merged rows in descending order of
  \<^verbatim>\<open>score_boosted\<close>, whatever the sorting routine does with equal keys; when no
  \<^verbatim>\<open>movie_id\<close> occurs twice in the metadata, it has as many rows as \<^verbatim>\<open>recs_df\<close>,
  the same rows rearranged.
\<close>

lemma boost_sorted_descending:
  assumes "argsort_desc_ok argsort" and "user_pref_genres \<noteq> []"
  shows "\<exists>rows. boost_recommendations argsort recs_df user_pref_genres meta boost_factor = BoostedDF rows \<and>
           sorted_wrt (\<lambda>a b. score_boosted b \<le> score_boosted a) rows \<and>
           length recs_df \<le> length rows \<and>
           (distinct (meta_movie_id meta) \<longrightarrow>
              length rows = length recs_df \<and>
              mset (map (\<lambda>r. (movie_id r, rec_title r, score r)) rows)
                = mset (map (\<lambda>r. (movie_id r, rec_title r, score r)) recs_df))"
proof -
  let ?right = "zip (meta_movie_id meta) (genres_list_column meta)"
  let ?merged = "merge_left recs_df ?right"
  let ?boosted = "add_score_boosted boost_factor (add_overlap user_pref_genres ?merged)"
  let ?rows = "sort_values_desc argsort score_boosted ?boosted"
  have res: "boost_recommendations argsort recs_df user_pref_genres meta boost_factor = BoostedDF ?rows"
    using assms(2) by (rule boost_recommendations_nonempty)
  have srt: "sorted_wrt (\<lambda>a b. score_boosted b \<le> score_boosted a) ?rows"
    using assms(1) by (rule sort_values_desc_sorted)
  have len: "length ?rows = length ?merged"
    using sort_values_desc_length [OF assms(1)] boosted_length by metis
  have ge: "length recs_df \<le> length ?rows"
    using len merge_left_length_ge [of recs_df ?right] by simp
  have uniq: "length ?rows = length recs_df \<and>
              mset (map (\<lambda>r. (movie_id r, rec_title r, score r)) ?rows)
                = mset (map (\<lambda>r. (movie_id r, rec_title r, score r)) recs_df)"
    if d: "distinct (meta_movie_id meta)"
  proof
    have dr: "distinct (map fst ?right)" using d by (rule distinct_zip_fst)
    show "length ?rows = length recs_df"
      using len merge_left_length_unique [OF dr] by simp
    have "mset (map (\<lambda>r. (movie_id r, rec_title r, score r)) ?rows)
            = image_mset (\<lambda>r. (movie_id r, rec_title r, score r)) (mset ?boosted)"
      using sort_values_desc_mset [OF assms(1), of score_boosted ?boosted] by simp
    also have "\<dots> = mset (map (\<lambda>r. (movie_id r, rec_title r, score r)) ?boosted)"
      by simp
    also have "map (\<lambda>r. (movie_id r, rec_title r, score r)) ?boosted
                 = map (\<lambda>r. (movie_id r, rec_title r, score r)) ?merged"
      unfolding boosted_rows_map by simp
    also have "\<dots> = map (\<lambda>r. (movie_id r, rec_title r, score r)) recs_df"
      using dr by (rule merge_left_base_unique)
    finally show "mset (map (\<lambda>r. (movie_id r, rec_title r, score r)) ?rows)
                = mset (map (\<lambda>r. (movie_id r, rec_title r, score r)) recs_df)" .
  qed
  from res srt ge uniq show ?thesis by blast
qed

lemma boost_recommendations_empty_profile:
  "boost_recommendations argsort recs_df [] meta boost_factor = RecsDF recs_df"
  by (simp add: boost_recommendations_def)

lemma personalized_recommendations_empty_profile:
  assumes "recs_df \<noteq> []" and "0 < top_n"
  shows "personalized_recommendations argsort recs_df [] movies_df top_n = Inl KeyError"
  using assms by (simp add: personalized_recommendations_def boost_recommendations_def)


lemmas boost_eval = boost_recommendations_def genres_list_column_def genres_to_list_def
  merge_left_def merge_row_def add_overlap_def add_score_boosted_def overlap_boost_def
  score_range_def sort_values_desc_def stable_argsort_def strip_def is_space_def upt_rec Let_def

lemma deref_alloc_old: "a < length s \<Longrightarrow> deref (snd (alloc s df)) a = deref s a"
  by (simp add: deref_def alloc_def nth_append)

text \<open>
  C10. A call of \<^verbatim>\<open>boost_recommendations\<close> on a recommendation frame and a metadata
  frame returns normally, leaves every frame that existed before the call as it was (the
  two arguments among them), and its result is the frame computed by
  \<open>boost_recommendations\<close>.
\<close>

theorem boost_recommendations_st_frame:
  assumes "deref s recs_df = Some (RecsDF recs)"
    and "deref s movie_metadata_df = Some (MetaDF meta)"
  shows "\<exists>result s'.
           boost_recommendations_st argsort s recs_df user_pref_genres movie_metadata_df boost_factor
             = Some (result, s') \<and>
           take (length s) s' = s \<and>
           deref s' recs_df = Some (RecsDF recs) \<and>
           deref s' movie_metadata_df = Some (MetaDF meta) \<and>
           deref s' result
             = Some (boost_recommendations argsort recs user_pref_genres meta boost_factor)"
proof (cases "user_pref_genres = []")
  case True
  with assms show ?thesis
    by (simp add: boost_recommendations_st_def boost_recommendations_def)
next
  case False
  from assms have lt: "recs_df < length s" "movie_metadata_df < length s"
    and at: "s ! recs_df = RecsDF recs" "s ! movie_metadata_df = MetaDF meta"
    by (auto simp: deref_def split: if_splits)
  let ?n = "length s"
  let ?merged = "merge_left recs (zip (meta_movie_id meta) (genres_list_column meta))"
  let ?boosted = "add_score_boosted boost_factor (add_overlap user_pref_genres ?merged)"
  let ?sorted = "BoostedDF (sort_values_desc argsort score_boosted ?boosted)"
  let ?s' = "s @ [MetaListDF meta (genres_list_column meta), BoostedDF ?boosted, ?sorted, ?sorted]"
  have run: "boost_recommendations_st argsort s recs_df user_pref_genres movie_metadata_df boost_factor
               = Some (?n + 3, ?s')"
    using False lt at
    by (simp add: boost_recommendations_st_def df_copy_def set_genres_list_def df_merge_def
        set_overlap_def set_score_boosted_def df_sort_values_def deref_def alloc_def nth_append
        list_update_append)
  have res: "deref ?s' (?n + 3) = Some (boost_recommendations argsort recs user_pref_genres meta boost_factor)"
    using False by (simp add: deref_def nth_append boost_recommendations_def)
  have old: "take (length s) ?s' = s" by simp
  have "deref ?s' recs_df = Some (RecsDF recs)" "deref ?s' movie_metadata_df = Some (MetaDF meta)"
    using lt at by (simp_all add: deref_def nth_append)
  with run res old show ?thesis by blast
qed

text \<open>
  The caller's rendering loop on a row without metadata: the missing \<^verbatim>\<open>genres_list\<close>
  reaches \<^verbatim>\<open>', '.join\<close> and the page fails with TypeError.
\<close>

lemma personalized_recommendations_missing_id:
  "personalized_recommendations stable_argsort
     [\<lparr>movie_id = 9, rec_title = ''Z'', score = 3\<rparr>] [''Action'']
     \<lparr>meta_movie_id = [1], meta_genres_clean = Some [Some ''Action''], meta_genres = None\<rparr> 10
   = Inl TypeError"
  by (simp add: personalized_recommendations_def boost_eval render_boosted_row_def)

text \<open>
  C2. With an empty preference list \<^verbatim>\<open>boost_recommendations\<close> returns \<^verbatim>\<open>recs_df\<close>
  itself: order and scores are unchanged, but the frame has no \<^verbatim>\<open>overlap\<close> and no
  \<^verbatim>\<open>score_boosted\<close> column, and the caller, which reads \<^verbatim>\<open>score_boosted\<close> from
  every row, fails with KeyError.
\<close>

theorem boost_empty_profile_no_overlap_column:
  "boost_recommendations stable_argsort
     [\<lparr>movie_id = 1, rec_title = ''A'', score = 4\<rparr>] []
     \<lparr>meta_movie_id = [1], meta_genres_clean = Some [Some ''Action''], meta_genres = None\<rparr> (1 / 4)
   = RecsDF [\<lparr>movie_id = 1, rec_title = ''A'', score = 4\<rparr>] \<and>
   personalized_recommendations stable_argsort
     [\<lparr>movie_id = 1, rec_title = ''A'', score = 4\<rparr>] []
     \<lparr>meta_movie_id = [1], meta_genres_clean = Some [Some ''Action''], meta_genres = None\<rparr> 10
   = Inl KeyError"
  by (simp add: boost_recommendations_def personalized_recommendations_def)



theorem boost_recommendations_st_frame_witness:
  "deref [RecsDF [\<lparr>movie_id = 1, rec_title = ''A'', score = 4\<rparr>],
          MetaDF \<lparr>meta_movie_id = [1], meta_genres_clean = Some [Some ''Action''], meta_genres = None\<rparr>] 0
     = Some (RecsDF [\<lparr>movie_id = 1, rec_title = ''A'', score = 4\<rparr>]) \<and>
   deref [RecsDF [\<lparr>movie_id = 1, rec_title = ''A'', score = 4\<rparr>],
          MetaDF \<lparr>meta_movie_id = [1], meta_genres_clean = Some [Some ''Action''], meta_genres = None\<rparr>] 1
     = Some (MetaDF \<lparr>meta_movie_id = [1], meta_genres_clean = Some [Some ''Action''], meta_genres = None\<rparr>) \<and>
   (\<exists>result s'.
      boost_recommendations_st stable_argsort
        [RecsDF [\<lparr>movie_id = 1, rec_title = ''A'', score = 4\<rparr>],
         MetaDF \<lparr>meta_movie_id = [1], meta_genres_clean = Some [Some ''Action''], meta_genres = None\<rparr>]
        0 [''Action''] 1 (1 / 4) = Some (result, s') \<and>
      take 2 s' =
        [RecsDF [\<lparr>movie_id = 1, rec_title = ''A'', score = 4\<rparr>],
         MetaDF \<lparr>meta_movie_id = [1], meta_genres_clean = Some [Some ''Action''], meta_genres = None\<rparr>])"
proof -
  let ?s = "[RecsDF [\<lparr>movie_id = 1, rec_title = ''A'', score = 4\<rparr>],
          MetaDF \<lparr>meta_movie_id = [1], meta_genres_clean = Some [Some ''Action''], meta_genres = None\<rparr>]"
  have a: "deref ?s 0 = Some (RecsDF [\<lparr>movie_id = 1, rec_title = ''A'', score = 4\<rparr>])"
    by (simp add: deref_def)
  have b: "deref ?s 1 = Some (MetaDF \<lparr>meta_movie_id = [1], meta_genres_clean = Some [Some ''Action''], meta_genres = None\<rparr>)"
    by (simp add: deref_def)
  from boost_recommendations_st_frame [OF a b, of stable_argsort "[''Action'']" "1 / 4"]
  have "\<exists>result s'.
      boost_recommendations_st stable_argsort ?s 0 [''Action''] 1 (1 / 4) = Some (result, s') \<and>
      take 2 s' = ?s"
    by (auto simp: numeral_2_eq_2)
  with a b show ?thesis by blast
qed

section \<open>The genre profile: properties\<close>

lemma first_seen_append_mem: "a \<in> set xs \<Longrightarrow> first_seen (xs @ ys) a = first_seen xs a"
  by (induction xs) (auto simp: first_seen_def)

lemma first_seen_less: "a \<in> set xs \<Longrightarrow> first_seen xs a < length xs"
  by (induction xs) (auto simp: first_seen_def)

lemma first_seen_snoc_new: "a \<notin> set xs \<Longrightarrow> first_seen (xs @ [a]) a = length xs"
  by (simp add: first_seen_def takeWhile_append)

lemma counter_add_keys:
  "map fst (counter_add x items) = (if x \<in> fst ` set items then map fst items else map fst items @ [x])"
  by (induction items) (force+)

lemma Counter_snoc: "Counter (xs @ [x]) = counter_add x (Counter xs)"
  by (simp add: Counter_def)

lemma Counter_keys_set: "fst ` set (Counter xs) = set xs"
proof (induction xs rule: rev_induct)
  case Nil
  then show ?case by (simp add: Counter_def)
next
  case (snoc x xs)
  have "set (map fst (Counter (xs @ [x]))) = set (xs @ [x])"
    unfolding Counter_snoc counter_add_keys using snoc by auto
  then show ?case by simp
qed

lemma Counter_keys_distinct: "distinct (map fst (Counter xs))"
proof (induction xs rule: rev_induct)
  case Nil
  then show ?case by (simp add: Counter_def)
next
  case (snoc x xs)
  then show ?case
    unfolding Counter_snoc counter_add_keys by auto
qed

lemma Counter_keys_first_seen:
  "sorted_wrt (\<lambda>a b. first_seen xs a < first_seen xs b) (map fst (Counter xs))"
proof (induction xs rule: rev_induct)
  case Nil
  then show ?case by (simp add: Counter_def)
next
  case (snoc x xs)
  have keys: "set (map fst (Counter xs)) = set xs"
    using Counter_keys_set [of xs] by simp
  have old: "sorted_wrt (\<lambda>a b. first_seen (xs @ [x]) a < first_seen (xs @ [x]) b) (map fst (Counter xs))"
  proof (rule sorted_wrt_mono_rel [OF _ snoc])
    fix a b assume "a \<in> set (map fst (Counter xs))" "b \<in> set (map fst (Counter xs))"
      "first_seen xs a < first_seen xs b"
    then show "first_seen (xs @ [x]) a < first_seen (xs @ [x]) b"
      using keys by (simp add: first_seen_append_mem)
  qed
  show ?case
  proof (cases "x \<in> set xs")
    case True
    then show ?thesis
      unfolding Counter_snoc counter_add_keys using old Counter_keys_set [of xs] by simp
  next
    case False
    have "\<forall>a\<in>set (map fst (Counter xs)). first_seen (xs @ [x]) a < first_seen (xs @ [x]) x"
      using keys False by (simp add: first_seen_append_mem first_seen_less first_seen_snoc_new)
    then show ?thesis
      unfolding Counter_snoc counter_add_keys using old False Counter_keys_set [of xs]
      by (simp add: sorted_wrt_append)
  qed
qed

lemma counter_add_map_of:
  "map_of (counter_add x items) =
     (map_of items)(x \<mapsto> (case map_of items x of None \<Rightarrow> 1 | Some n \<Rightarrow> n + 1))"
  by (induction items) (auto simp: fun_eq_iff)

lemma Counter_map_of:
  "map_of (Counter xs) g = (if g \<in> set xs then Some (count_list xs g) else None)"
proof (induction xs rule: rev_induct)
  case Nil
  then show ?case by (simp add: Counter_def)
next
  case (snoc x xs)
  then show ?case
    unfolding Counter_snoc counter_add_map_of by (auto)
qed

lemma Counter_counts: "(g, n) \<in> set (Counter xs) \<Longrightarrow> n = count_list xs g"
  using Counter_map_of [of xs g] Counter_keys_distinct [of xs]
  by (auto split: if_splits)

lemma insort_key_ties:
  fixes f :: "'a \<Rightarrow> 'b::linorder"
  assumes "sorted_wrt (\<lambda>a b. f a < f b \<or> (f a = f b \<and> P a b)) ys"
    and "\<forall>y\<in>set ys. P x y"
  shows "sorted_wrt (\<lambda>a b. f a < f b \<or> (f a = f b \<and> P a b)) (insort_key f x ys)"
  using assms
proof (induction ys)
  case Nil
  then show ?case by simp
next
  case (Cons y ys)
  show ?case
  proof (cases "f x \<le> f y")
    case True
    have "\<forall>z\<in>set (y # ys). f x < f z \<or> (f x = f z \<and> P x z)"
    proof
      fix z assume z: "z \<in> set (y # ys)"
      then have "f y \<le> f z" using Cons.prems(1) by auto
      with True have "f x \<le> f z" by simp
      with z Cons.prems(2) show "f x < f z \<or> (f x = f z \<and> P x z)" by auto
    qed
    with True Cons.prems(1) show ?thesis by simp
  next
    case False
    have ih: "sorted_wrt (\<lambda>a b. f a < f b \<or> (f a = f b \<and> P a b)) (insort_key f x ys)"
      using Cons by simp
    have "\<forall>z\<in>set (insort_key f x ys). f y < f z \<or> (f y = f z \<and> P y z)"
      using False Cons.prems(1) by (auto simp: set_insort_key)
    with False ih show ?thesis by simp
  qed
qed

lemma sort_key_ties:
  fixes f :: "'a \<Rightarrow> 'b::linorder"
  assumes "sorted_wrt P xs"
  shows "sorted_wrt (\<lambda>a b. f a < f b \<or> (f a = f b \<and> P a b)) (sort_key f xs)"
  using assms
proof (induction xs)
  case Nil
  then show ?case by simp
next
  case (Cons x xs)
  then have "sorted_wrt (\<lambda>a b. f a < f b \<or> (f a = f b \<and> P a b)) (sort_key f xs)"
    and "\<forall>y\<in>set (sort_key f xs). P x y"
    by simp_all
  then show ?case
    by (simp add: insort_key_ties)
qed

lemma most_common_ranked:
  "sorted_wrt (\<lambda>g h. count_list xs h < count_list xs g \<or>
                     (count_list xs g = count_list xs h \<and> first_seen xs g < first_seen xs h))
     (map fst (most_common k (Counter xs)))"
proof -
  let ?f = "\<lambda>item :: 'a \<times> nat. - int (snd item)"
  let ?P = "\<lambda>a b :: 'a \<times> nat. first_seen xs (fst a) < first_seen xs (fst b)"
  let ?sorted = "sort_key ?f (Counter xs)"
  have "sorted_wrt ?P (Counter xs)"
    using Counter_keys_first_seen [of xs] by (simp add: sorted_wrt_map)
  then have 1: "sorted_wrt (\<lambda>a b. ?f a < ?f b \<or> (?f a = ?f b \<and> ?P a b)) ?sorted"
    by (rule sort_key_ties)
  have 2: "sorted_wrt (\<lambda>a b. count_list xs (fst b) < count_list xs (fst a) \<or>
                     (count_list xs (fst a) = count_list xs (fst b) \<and> ?P a b)) ?sorted"
  proof (rule sorted_wrt_mono_rel [OF _ 1])
    fix a b assume a: "a \<in> set ?sorted" and b: "b \<in> set ?sorted"
      and r: "?f a < ?f b \<or> (?f a = ?f b \<and> ?P a b)"
    from a have "snd a = count_list xs (fst a)"
      using Counter_counts [of "fst a" "snd a" xs] by simp
    moreover from b have "snd b = count_list xs (fst b)"
      using Counter_counts [of "fst b" "snd b" xs] by simp
    ultimately show "count_list xs (fst b) < count_list xs (fst a) \<or>
                     (count_list xs (fst a) = count_list xs (fst b) \<and> ?P a b)"
      using r by auto
  qed
  then have "sorted_wrt (\<lambda>a b. count_list xs (fst b) < count_list xs (fst a) \<or>
                     (count_list xs (fst a) = count_list xs (fst b) \<and> ?P a b)) (take k ?sorted)"
    by (rule sorted_wrt_take)
  then show ?thesis
    by (simp add: most_common_def sorted_wrt_map)
qed

lemma most_common_length: "length (most_common k items) \<le> k"
  by (simp add: most_common_def)

lemma most_common_take:
  "map fst (most_common k items) = take k (map fst (most_common (length items) items))"
  by (simp add: most_common_def take_map)

lemma most_common_all_keys:
  "set (map fst (most_common (length items) items)) = fst ` set items"
  by (simp add: most_common_def)

lemma most_common_all_distinct:
  "distinct (map fst items) \<Longrightarrow> distinct (map fst (most_common (length items) items))"
proof -
  assume "distinct (map fst items)"
  have "mset (map fst (sort_key (\<lambda>item. - int (snd item)) items)) = mset (map fst items)"
    by simp
  then have "distinct (map fst (sort_key (\<lambda>item. - int (snd item)) items)) = distinct (map fst items)"
    by (rule mset_eq_imp_distinct_iff)
  with \<open>distinct (map fst items)\<close> show ?thesis
    by (simp add: most_common_def)
qed

lemma Counter_length: "length (Counter xs) \<le> length xs"
proof -
  have "length (map fst (Counter xs)) = card (set (map fst (Counter xs)))"
    using Counter_keys_distinct [of xs] by (metis distinct_card)
  also have "\<dots> = card (set xs)"
    using Counter_keys_set [of xs] by simp
  also have "\<dots> \<le> length xs" by (rule card_length)
  finally show ?thesis by simp
qed

lemma most_common_all: "length items \<le> n \<Longrightarrow> most_common n items = most_common (length items) items"
  by (simp add: most_common_def)

lemma most_common_top:
  fixes xs :: "'a list" and k :: nat
  defines "best \<equiv> map fst (most_common k (Counter xs))"
  shows "length best = min k (card (set xs))"
    and "distinct best"
    and "set best \<subseteq> set xs"
    and "sorted_wrt (\<lambda>g h. count_list xs h < count_list xs g \<or>
                           (count_list xs g = count_list xs h \<and> first_seen xs g < first_seen xs h)) best"
    and "\<forall>g\<in>set xs - set best. \<forall>h\<in>set best.
           count_list xs g < count_list xs h \<or>
           (count_list xs g = count_list xs h \<and> first_seen xs h < first_seen xs g)"
proof -
  let ?R = "\<lambda>g h. count_list xs h < count_list xs g \<or>
                   (count_list xs g = count_list xs h \<and> first_seen xs g < first_seen xs h)"
  let ?items = "Counter xs"
  let ?full = "map fst (most_common (length ?items) ?items)"
  have top: "best = take k ?full"
    unfolding best_def by (rule most_common_take)
  have d: "distinct ?full"
    using Counter_keys_distinct by (rule most_common_all_distinct)
  have s: "set ?full = set xs"
    by (simp only: most_common_all_keys Counter_keys_set)
  have "length ?full = card (set ?full)"
    using d by (simp only: distinct_card)
  then have l: "length ?full = card (set xs)"
    by (simp only: s)
  have r: "sorted_wrt ?R ?full"
    by (rule most_common_ranked)
  show "length best = min k (card (set xs))"
    unfolding top using l by simp
  show "distinct best"
    unfolding top using d by (rule distinct_take)
  show "set best \<subseteq> set xs"
    unfolding top using set_take_subset [of k ?full] s by simp
  show "sorted_wrt ?R best"
    unfolding top using r by (rule sorted_wrt_take)
  show "\<forall>g\<in>set xs - set best. \<forall>h\<in>set best.
           count_list xs g < count_list xs h \<or>
           (count_list xs g = count_list xs h \<and> first_seen xs h < first_seen xs g)"
  proof (intro ballI)
    fix g h assume g: "g \<in> set xs - set best" and h: "h \<in> set best"
    have "set ?full = set (take k ?full) \<union> set (drop k ?full)"
      by (metis append_take_drop_id set_append)
    with g s top have "g \<in> set (drop k ?full)" by auto
    moreover have "sorted_wrt ?R (take k ?full @ drop k ?full)"
      using r by simp
    ultimately have "?R h g"
      using h unfolding top sorted_wrt_append by blast
    then show "count_list xs g < count_list xs h \<or>
           (count_list xs g = count_list xs h \<and> first_seen xs h < first_seen xs g)"
      by auto
  qed
qed

lemma split_on_concat: "concat (map ((#) c) (split_on c s)) = c # s"
  by (induction s) (auto split: list.splits)

lemma split_on_no_sep: "p \<in> set (split_on c s) \<Longrightarrow> c \<notin> set p"
  by (induction s arbitrary: p) (auto split: list.splits if_splits)

lemma dropna_explode:
  "dropna (str_split_explode sep col)
     = concat (map (\<lambda>c. case c of None \<Rightarrow> [] | Some s \<Rightarrow> split_on sep s) col)"
proof (induction col)
  case Nil
  then show ?case by (simp add: dropna_def str_split_explode_def)
next
  case (Cons c col)
  have some: "concat (map (case_option [] (\<lambda>s. [s]) \<circ> Some) ps) = ps" for ps :: "string list"
    by (induction ps) simp_all
  from Cons show ?case
    by (cases c) (simp_all add: dropna_def str_split_explode_def some)
qed

lemma get_watched_mem: "t \<in> set (get_watched tbl username) \<longleftrightarrow> (username, t) \<in> set tbl"
  by (force simp: get_watched_def)

lemma title_isin_watched:
  "title_isin movies_df (get_watched tbl username)
     = filter (\<lambda>m. (username, title m) \<in> set tbl) movies_df"
  by (simp add: title_isin_def get_watched_mem)

lemma watched_genres_scan:
  "watched_genres movies_df (get_watched tbl username)
     = concat (map (\<lambda>m. case genres_clean m of None \<Rightarrow> [] | Some s \<Rightarrow> split_on CHR ''|'' s)
                (filter (\<lambda>m. (username, title m) \<in> set tbl) movies_df))"
  by (simp add: watched_genres_def dropna_explode title_isin_watched map_map comp_def)

lemma watched_genres_Nil: "watched_genres movies_df [] = []"
  by (simp add: watched_genres_def title_isin_def dropna_def str_split_explode_def)

lemma get_top_genres_ranking:
  "get_top_genres tbl movies_df username k =
     map fst (most_common k (Counter (watched_genres movies_df (get_watched tbl username))))"
  by (cases "get_watched tbl username = []")
     (simp_all add: get_top_genres_def watched_genres_Nil most_common_def Counter_def)

text \<open>
  C5. \<^verbatim>\<open>get_top_genres\<close> returns at most \<open>k\<close> genres, the first \<open>k\<close> of a ranking
  (all of it when it is shorter). The ranking is read off one scan: the rows of the catalog
  in catalog order, those whose title the user has watched, and of each its genres from left
  to right, the pieces of its genre string between the bars. A genre that occurs more often
  in the scan comes before one that occurs less often, and of two genres that occur equally
  often the one met first in the scan comes first; every genre left out ranks after every
  genre returned. The watched table enters only through the set of titles the user has
  watched, so neither the order of marking nor the alphabet decides a tie.
\<close>

theorem get_top_genres_tie_break:
  "(let scan = concat (map (\<lambda>m. case genres_clean m of None \<Rightarrow> [] | Some s \<Rightarrow> split_on CHR ''|'' s)
                        (filter (\<lambda>m. (username, title m) \<in> set tbl) movies_df));
        pos = (\<lambda>g. length (takeWhile (\<lambda>x. x \<noteq> g) scan));
        top = get_top_genres tbl movies_df username k
    in length top \<le> k \<and> length top = min k (card (set scan)) \<and>
       distinct top \<and> set top \<subseteq> set scan \<and>
       sorted_wrt (\<lambda>g h. count_list scan h < count_list scan g \<or>
                          (count_list scan g = count_list scan h \<and> pos g < pos h)) top \<and>
       (\<forall>g\<in>set scan - set top. \<forall>h\<in>set top.
          count_list scan g < count_list scan h \<or>
          (count_list scan g = count_list scan h \<and> pos h < pos g))) \<and>
   (\<forall>s. concat (map ((#) CHR ''|'') (split_on CHR ''|'' s)) = CHR ''|'' # s \<and>
        CHR ''|'' \<notin> \<Union> (set ` set (split_on CHR ''|'' s))) \<and>
   (\<forall>tbl'. {t. (username, t) \<in> set tbl'} = {t. (username, t) \<in> set tbl} \<longrightarrow>
      get_top_genres tbl' movies_df username k = get_top_genres tbl movies_df username k)"
proof -
  let ?scan = "concat (map (\<lambda>m. case genres_clean m of None \<Rightarrow> [] | Some s \<Rightarrow> split_on CHR ''|'' s)
                        (filter (\<lambda>m. (username, title m) \<in> set tbl) movies_df))"
  have top: "get_top_genres tbl movies_df username k = map fst (most_common k (Counter ?scan))"
    by (simp only: get_top_genres_ranking watched_genres_scan)
  note mc = most_common_top [where k = k and xs = ?scan, folded top, unfolded first_seen_def]
  have 1: "length (get_top_genres tbl movies_df username k) \<le> k"
    using mc(1) by simp
  have 7: "concat (map ((#) CHR ''|'') (split_on CHR ''|'' s)) = CHR ''|'' # s \<and>
           CHR ''|'' \<notin> \<Union> (set ` set (split_on CHR ''|'' s))" for s
    using split_on_concat [of "CHR ''|''" s] split_on_no_sep [of _ "CHR ''|''" s] by blast
  have 8: "get_top_genres tbl' movies_df username k = get_top_genres tbl movies_df username k"
    if "{t. (username, t) \<in> set tbl'} = {t. (username, t) \<in> set tbl}" for tbl'
  proof -
    from that have "(username, t) \<in> set tbl' \<longleftrightarrow> (username, t) \<in> set tbl" for t
      by blast
    then show ?thesis
      by (simp only: get_top_genres_ranking watched_genres_scan)
  qed
  from 1 mc 7 8 show ?thesis
    unfolding Let_def by blast
qed

theorem get_top_genres_tie_break_witness:
  "{t. (''ann'', t) \<in> set [(''ann'', ''Zulu''), (''ann'', ''Blank''), (''ann'', ''Heat''), (''ann'', ''Airplane'')]}
     = {t. (''ann'', t) \<in> set [(''bob'', ''Alien''), (''ann'', ''Airplane''), (''ann'', ''Heat''), (''ann'', ''Zulu''), (''ann'', ''Blank'')]} \<and>
   get_top_genres [(''ann'', ''Zulu''), (''ann'', ''Blank''), (''ann'', ''Heat''), (''ann'', ''Airplane'')]
     [\<lparr>title = ''Alien'', genres_clean = Some ''Horror|Sci-Fi'', avg_rating = 9 / 2\<rparr>,
      \<lparr>title = ''Zulu'', genres_clean = Some ''War|Drama'', avg_rating = 4\<rparr>,
      \<lparr>title = ''Airplane'', genres_clean = Some ''Comedy'', avg_rating = 3\<rparr>,
      \<lparr>title = ''Blank'', genres_clean = None, avg_rating = 2\<rparr>,
      \<lparr>title = ''Heat'', genres_clean = Some ''Crime|Drama'', avg_rating = 4\<rparr>] ''ann'' 3
   = get_top_genres [(''bob'', ''Alien''), (''ann'', ''Airplane''), (''ann'', ''Heat''), (''ann'', ''Zulu''), (''ann'', ''Blank'')]
     [\<lparr>title = ''Alien'', genres_clean = Some ''Horror|Sci-Fi'', avg_rating = 9 / 2\<rparr>,
      \<lparr>title = ''Zulu'', genres_clean = Some ''War|Drama'', avg_rating = 4\<rparr>,
      \<lparr>title = ''Airplane'', genres_clean = Some ''Comedy'', avg_rating = 3\<rparr>,
      \<lparr>title = ''Blank'', genres_clean = None, avg_rating = 2\<rparr>,
      \<lparr>title = ''Heat'', genres_clean = Some ''Crime|Drama'', avg_rating = 4\<rparr>] ''ann'' 3 \<and>
   get_top_genres [(''bob'', ''Alien''), (''ann'', ''Airplane''), (''ann'', ''Heat''), (''ann'', ''Zulu''), (''ann'', ''Blank'')]
     [\<lparr>title = ''Alien'', genres_clean = Some ''Horror|Sci-Fi'', avg_rating = 9 / 2\<rparr>,
      \<lparr>title = ''Zulu'', genres_clean = Some ''War|Drama'', avg_rating = 4\<rparr>,
      \<lparr>title = ''Airplane'', genres_clean = Some ''Comedy'', avg_rating = 3\<rparr>,
      \<lparr>title = ''Blank'', genres_clean = None, avg_rating = 2\<rparr>,
      \<lparr>title = ''Heat'', genres_clean = Some ''Crime|Drama'', avg_rating = 4\<rparr>] ''ann'' 3
   = [''Drama'', ''War'', ''Comedy'']"
proof -
  let ?movies = "[\<lparr>title = ''Alien'', genres_clean = Some ''Horror|Sci-Fi'', avg_rating = 9 / 2\<rparr>,
      \<lparr>title = ''Zulu'', genres_clean = Some ''War|Drama'', avg_rating = 4\<rparr>,
      \<lparr>title = ''Airplane'', genres_clean = Some ''Comedy'', avg_rating = 3\<rparr>,
      \<lparr>title = ''Blank'', genres_clean = None, avg_rating = 2\<rparr>,
      \<lparr>title = ''Heat'', genres_clean = Some ''Crime|Drama'', avg_rating = 4\<rparr>]"
  let ?tbl = "[(''bob'', ''Alien''), (''ann'', ''Airplane''), (''ann'', ''Heat''), (''ann'', ''Zulu''), (''ann'', ''Blank'')]"
  let ?tbl' = "[(''ann'', ''Zulu''), (''ann'', ''Blank''), (''ann'', ''Heat''), (''ann'', ''Airplane'')]"
  have h: "{t. (''ann'', t) \<in> set ?tbl'} = {t. (''ann'', t) \<in> set ?tbl}"
    by auto
  have e: "get_top_genres ?tbl ?movies ''ann'' 3 = [''Drama'', ''War'', ''Comedy'']"
  proof -
    have 1: "get_watched ?tbl ''ann'' = [''Airplane'', ''Heat'', ''Zulu'', ''Blank'']"
      by (simp add: get_watched_def)
    have 2: "watched_genres ?movies [''Airplane'', ''Heat'', ''Zulu'', ''Blank'']
               = [''War'', ''Drama'', ''Comedy'', ''Crime'', ''Drama'']"
      by (simp add: watched_genres_def title_isin_def dropna_def str_split_explode_def)
    have 3: "Counter [''War'', ''Drama'', ''Comedy'', ''Crime'', ''Drama'']
               = [(''War'', 1), (''Drama'', 2), (''Comedy'', 1), (''Crime'', 1)]"
      by (simp add: Counter_def)
    have 4: "most_common 3 [(''War'', 1), (''Drama'', 2), (''Comedy'', 1), (''Crime'', 1)]
               = [(''Drama'', 2), (''War'', 1), (''Comedy'', 1)]"
      by (simp add: most_common_def)
    show ?thesis
      unfolding get_top_genres_def Let_def 1 2 3 4 by simp
  qed
  note t = get_top_genres_tie_break [where movies_df = ?movies and tbl = ?tbl and username = "''ann''" and k = 3]
  note i = t [THEN conjunct2, THEN conjunct2, THEN spec, of ?tbl', THEN mp, OF h]
  from h i e show ?thesis by (intro conjI)
qed

section \<open>The recommendation tabs: properties\<close>


lemma series_apply_Inr:
  "series_apply f rows = Inr bs \<Longrightarrow> bs = map (\<lambda>r. f r = Inr True) rows"
proof (induction rows arbitrary: bs)
  case Nil
  then show ?case by simp
next
  case (Cons r rows)
  then show ?case
    by (auto split: sum.splits)
qed

lemma mask_rows: "map fst (filter snd (zip rows (map P rows))) = filter P rows"
  by (induction rows) simp_all

lemma select_rows_Nil: "select_rows f [] = Inr None"
  by (simp add: select_rows_def)

lemma select_rows_Some:
  assumes "select_rows f rows = Inr (Some kept)"
  shows "rows \<noteq> [] \<and> kept = filter (\<lambda>r. f r = Inr True) rows"
proof (cases "series_apply f rows")
  case (Inl e)
  with assms show ?thesis by (simp add: select_rows_def)
next
  case (Inr bs)
  then have bs: "bs = map (\<lambda>r. f r = Inr True) rows"
    by (rule series_apply_Inr)
  from assms Inr have "bs \<noteq> []" and "kept = map fst (filter snd (zip rows bs))"
    by (auto simp: select_rows_def split: if_splits)
  then show ?thesis
    unfolding bs by (simp add: mask_rows)
qed








lemma top_rated_titles_length: "length (top_rated_titles argsort df top_n) \<le> top_n"
  by (simp add: top_rated_titles_def)

lemma top_rated_titles_Nil:
  "argsort_desc_ok argsort \<Longrightarrow> top_rated_titles argsort [] top_n = []"
  using sort_values_desc_length [of argsort avg_rating "[] :: movie list"]
  by (simp add: top_rated_titles_def)

lemma top_rated_titles_subset:
  "argsort_desc_ok argsort \<Longrightarrow> set (top_rated_titles argsort df top_n) \<subseteq> title ` set df"
proof -
  assume "argsort_desc_ok argsort"
  then have "set (sort_values_desc argsort avg_rating df) = set df"
    by (rule sort_values_desc_set)
  then show ?thesis
    using set_take_subset [of top_n "sort_values_desc argsort avg_rating df"]
    by (auto simp: top_rated_titles_def)
qed










lemma title_isin_length:
  assumes "distinct (map title movies_df)"
  shows "length (title_isin movies_df titles) \<le> length titles"
proof -
  let ?shown = "map title (title_isin movies_df titles)"
  have d: "distinct ?shown"
    using assms unfolding title_isin_def by (rule distinct_map_filter)
  have "set ?shown \<subseteq> set titles"
    by (auto simp: title_isin_def)
  then have "card (set ?shown) \<le> card (set titles)"
    by (simp add: card_mono)
  also have "\<dots> \<le> length titles" by (rule card_length)
  finally have "card (set ?shown) \<le> length titles" .
  moreover have "card (set ?shown) = length ?shown"
    using d by (rule distinct_card)
  ultimately show ?thesis by simp
qed

lemma recommendations_tab_reason_Inr:
  assumes "recommendations_tab_reason argsort final_recs tbl movies_df username user_id = Inr rows"
  shows "\<exists>recs.
           (case (case user_id of None \<Rightarrow> None | Some u \<Rightarrow> final_recs u) of
              Some recs \<Rightarrow> Inr recs
            | None \<Rightarrow> map_sum id fst (get_genre_recommendations_reason argsort tbl movies_df username TOP_N))
             = Inr recs \<and>
           rows = title_isin movies_df (filter (\<lambda>t. t \<notin> set (get_watched tbl username)) recs)"
proof -
  let ?base = "case (case user_id of None \<Rightarrow> None | Some u \<Rightarrow> final_recs u) of
              Some recs \<Rightarrow> (Inr recs :: error + string list)
            | None \<Rightarrow> map_sum id fst (get_genre_recommendations_reason argsort tbl movies_df username TOP_N)"
  show ?thesis
  proof (cases ?base)
    case (Inl e)
    then have "recommendations_tab_reason argsort final_recs tbl movies_df username user_id = Inl e"
      by (simp add: recommendations_tab_reason_def)
    with assms show ?thesis by simp
  next
    case (Inr recs)
    then have "recommendations_tab_reason argsort final_recs tbl movies_df username user_id
                 = Inr (title_isin movies_df (filter (\<lambda>t. t \<notin> set (get_watched tbl username)) recs))"
      by (simp add: recommendations_tab_reason_def Let_def)
    with assms Inr show ?thesis by simp
  qed
qed

lemma recommendations_tab_reason_unwatched:
  assumes "recommendations_tab_reason argsort final_recs tbl movies_df username user_id = Inr rows"
  shows "\<forall>m\<in>set rows. title m \<notin> set (get_watched tbl username)"
proof -
  from recommendations_tab_reason_Inr [OF assms] obtain recs where
    "rows = title_isin movies_df (filter (\<lambda>t. t \<notin> set (get_watched tbl username)) recs)"
    by blast
  then show ?thesis
    by (simp add: title_isin_def)
qed

lemma get_genre_recommendations_reason_length:
  assumes "get_genre_recommendations_reason argsort tbl movies_df username top_n = Inr (recs, top_genre)"
  shows "length recs \<le> top_n"
proof (cases "get_watched tbl username = []")
  case True
  with assms have "recs = top_rated_titles argsort movies_df top_n"
    by (simp add: get_genre_recommendations_reason_def)
  then show ?thesis by (simp add: top_rated_titles_length)
next
  case False
  let ?genres = "str_split_explode CHR ''|'' (map genres_clean (title_isin movies_df (get_watched tbl username)))"
  let ?sel = "select_rows (\<lambda>m. any_genre_in (map fst (most_common 4 (Counter ?genres))) (str_of_cell (genres_clean m)))
                (title_not_isin movies_df (get_watched tbl username))"
  from assms False obtain kept where "?sel = Inr (Some kept)"
      and "recs = top_rated_titles argsort kept top_n"
    by (auto simp: get_genre_recommendations_reason_def Let_def split: sum.splits option.splits)
  then show ?thesis by (simp add: top_rated_titles_length)
qed

lemma recommendations_tab_reason_fallback_length:
  assumes "(case user_id of None \<Rightarrow> None | Some u \<Rightarrow> final_recs u) = None"
    and "distinct (map title movies_df)"
    and "recommendations_tab_reason argsort final_recs tbl movies_df username user_id = Inr rows"
  shows "length rows \<le> TOP_N"
proof -
  from recommendations_tab_reason_Inr [OF assms(3)] assms(1) obtain recs where
      fb: "map_sum id fst (get_genre_recommendations_reason argsort tbl movies_df username TOP_N) = Inr recs"
      and rows: "rows = title_isin movies_df (filter (\<lambda>t. t \<notin> set (get_watched tbl username)) recs)"
    by auto
  from fb obtain top_genre where
      "get_genre_recommendations_reason argsort tbl movies_df username TOP_N = Inr (recs, top_genre)"
    by (cases "get_genre_recommendations_reason argsort tbl movies_df username TOP_N") auto
  then have len: "length recs \<le> TOP_N"
    by (rule get_genre_recommendations_reason_length)
  have "length rows \<le> length (filter (\<lambda>t. t \<notin> set (get_watched tbl username)) recs)"
    unfolding rows using assms(2) by (rule title_isin_length)
  also have "\<dots> \<le> length recs" by simp
  finally show ?thesis using len by simp
qed

text \<open>
  C1. For a user whose model list has eleven titles, the Recommendations tab of the variant
  that removes watched titles shows eleven rows, more than \<open>TOP_N\<close>; and in the variant
  without that filter a title of the model list is shown although the user has watched it.
\<close>

theorem recommendations_tab_unbounded:
  "recommendations_tab_reason stable_argsort
     (map_of [(7, [''M01'', ''M02'', ''M03'', ''M04'', ''M05'', ''M06'', ''M07'', ''M08'', ''M09'', ''M10'', ''M11''])])
     []
     [\<lparr>title = ''M01'', genres_clean = Some ''Drama'', avg_rating = 3\<rparr>,
      \<lparr>title = ''M02'', genres_clean = Some ''Drama'', avg_rating = 3\<rparr>,
      \<lparr>title = ''M03'', genres_clean = Some ''Drama'', avg_rating = 3\<rparr>,
      \<lparr>title = ''M04'', genres_clean = Some ''Drama'', avg_rating = 3\<rparr>,
      \<lparr>title = ''M05'', genres_clean = Some ''Drama'', avg_rating = 3\<rparr>,
      \<lparr>title = ''M06'', genres_clean = Some ''Drama'', avg_rating = 3\<rparr>,
      \<lparr>title = ''M07'', genres_clean = Some ''Drama'', avg_rating = 3\<rparr>,
      \<lparr>title = ''M08'', genres_clean = Some ''Drama'', avg_rating = 3\<rparr>,
      \<lparr>title = ''M09'', genres_clean = Some ''Drama'', avg_rating = 3\<rparr>,
      \<lparr>title = ''M10'', genres_clean = Some ''Drama'', avg_rating = 3\<rparr>,
      \<lparr>title = ''M11'', genres_clean = Some ''Drama'', avg_rating = 3\<rparr>]
     ''7'' (Some 7)
   = Inr
     [\<lparr>title = ''M01'', genres_clean = Some ''Drama'', avg_rating = 3\<rparr>,
      \<lparr>title = ''M02'', genres_clean = Some ''Drama'', avg_rating = 3\<rparr>,
      \<lparr>title = ''M03'', genres_clean = Some ''Drama'', avg_rating = 3\<rparr>,
      \<lparr>title = ''M04'', genres_clean = Some ''Drama'', avg_rating = 3\<rparr>,
      \<lparr>title = ''M05'', genres_clean = Some ''Drama'', avg_rating = 3\<rparr>,
      \<lparr>title = ''M06'', genres_clean = Some ''Drama'', avg_rating = 3\<rparr>,
      \<lparr>title = ''M07'', genres_clean = Some ''Drama'', avg_rating = 3\<rparr>,
      \<lparr>title = ''M08'', genres_clean = Some ''Drama'', avg_rating = 3\<rparr>,
      \<lparr>title = ''M09'', genres_clean = Some ''Drama'', avg_rating = 3\<rparr>,
      \<lparr>title = ''M10'', genres_clean = Some ''Drama'', avg_rating = 3\<rparr>,
      \<lparr>title = ''M11'', genres_clean = Some ''Drama'', avg_rating = 3\<rparr>] \<and>
   TOP_N < 11 \<and>
   recommendations_tab stable_argsort (map_of [(7, [''Heat''])])
     [(''7'', ''Heat'')]
     [\<lparr>title = ''Heat'', genres_clean = Some ''Crime'', avg_rating = 4\<rparr>]
     ''7'' (Some 7)
   = Inr [\<lparr>title = ''Heat'', genres_clean = Some ''Crime'', avg_rating = 4\<rparr>] \<and>
   get_watched [(''7'', ''Heat'')] ''7'' = [''Heat'']"
  by (simp add: recommendations_tab_reason_def recommendations_tab_def recommendations_tab_recs_def
      get_watched_def title_isin_def TOP_N_def)







section \<open>Ties under a stable sorting routine\<close>

text \<open>
  If the library routine were the stable one, rows with equal boosted scores would keep
  the order of the merged rows, which is the order of \<^verbatim>\<open>recs_df\<close>. The code does not
  ask for it: \<^verbatim>\<open>sort_values\<close> is called without \<^verbatim>\<open>kind\<close>.
\<close>

lemma stable_argsort_keeps_ties:
  "sorted_wrt (\<lambda>i j. ks ! j < ks ! i \<or> (ks ! i = ks ! j \<and> i < j)) (stable_argsort ks)"
proof -
  have "sorted_wrt (<) [0..<length ks]" by simp
  then have "sorted_wrt (\<lambda>i j. - (ks ! i) < - (ks ! j) \<or> (- (ks ! i) = - (ks ! j) \<and> i < j))
               (sort_key (\<lambda>i. - (ks ! i)) [0..<length ks])"
    by (rule sort_key_ties)
  then show ?thesis
    by (simp add: stable_argsort_def)
qed

lemma boost_stable_keeps_ties:
  assumes "user_pref_genres \<noteq> []"
  shows "\<exists>boosted perm.
           boosted = add_score_boosted boost_factor (add_overlap user_pref_genres
                       (merge_left recs_df (zip (meta_movie_id meta) (genres_list_column meta)))) \<and>
           boost_recommendations stable_argsort recs_df user_pref_genres meta boost_factor
             = BoostedDF (map (\<lambda>i. boosted ! i) perm) \<and>
           mset perm = mset [0..<length boosted] \<and>
           sorted_wrt (\<lambda>i j. score_boosted (boosted ! j) < score_boosted (boosted ! i) \<or>
                              (score_boosted (boosted ! i) = score_boosted (boosted ! j) \<and> i < j)) perm"
proof -
  let ?boosted = "add_score_boosted boost_factor (add_overlap user_pref_genres
                       (merge_left recs_df (zip (meta_movie_id meta) (genres_list_column meta))))"
  let ?ks = "map score_boosted ?boosted"
  let ?perm = "stable_argsort ?ks"
  have res: "boost_recommendations stable_argsort recs_df user_pref_genres meta boost_factor
               = BoostedDF (map (\<lambda>i. ?boosted ! i) ?perm)"
    using boost_recommendations_nonempty [OF assms] by (simp add: sort_values_desc_def)
  have perm: "mset ?perm = mset [0..<length ?boosted]"
    using stable_argsort_ok unfolding argsort_desc_ok_def by (metis length_map)
  then have idx: "set ?perm = {0..<length ?boosted}"
    by (metis mset_eq_setD set_upt)
  have "sorted_wrt (\<lambda>i j. ?ks ! j < ?ks ! i \<or> (?ks ! i = ?ks ! j \<and> i < j)) ?perm"
    by (rule stable_argsort_keeps_ties)
  then have "sorted_wrt (\<lambda>i j. score_boosted (?boosted ! j) < score_boosted (?boosted ! i) \<or>
                              (score_boosted (?boosted ! i) = score_boosted (?boosted ! j) \<and> i < j)) ?perm"
  proof (rule sorted_wrt_mono_rel [rotated])
    fix i j assume "i \<in> set ?perm" "j \<in> set ?perm"
      and "?ks ! j < ?ks ! i \<or> (?ks ! i = ?ks ! j \<and> i < j)"
    then show "score_boosted (?boosted ! j) < score_boosted (?boosted ! i) \<or>
               (score_boosted (?boosted ! i) = score_boosted (?boosted ! j) \<and> i < j)"
      using idx by simp
  qed
  with res perm show ?thesis by blast
qed

end
